theory Spec2Isabelle
  imports Main
begin

section \<open>The wifi logger of \<^verbatim>\<open>wifi_logger.c\<close>\<close>

text \<open>
  The logger has producers (\<^verbatim>\<open>generate_log_message\<close>, \<^verbatim>\<open>system_log_message_route\<close>)
  that put pointers to heap-allocated C strings into a FreeRTOS queue, and one consumer
  task (\<^verbatim>\<open>wifi_logger\<close>) that takes them out, hands them to a network transport and
  frees them. The model is sequential: one call runs to its end before the next starts.

  What lies outside \<^verbatim>\<open>wifi_logger.c\<close> is modelled as follows.
  \<^item> The macros \<^verbatim>\<open>MESSAGE_QUEUE_SIZE\<close> and \<^verbatim>\<open>BUFFER_SIZE\<close> (of \<^verbatim>\<open>wifi_logger.h\<close>), the
    transport chosen by \<^verbatim>\<open>CONFIG_TRANSPORT_PROTOCOL_*\<close> and whether \<^verbatim>\<open>configASSERT\<close>
    is compiled in are fields of the record \<open>env\<close>.
  \<^item> The C library's expansion of a format string with its arguments
    (\<^verbatim>\<open>vsprintf\<close>, \<^verbatim>\<open>vprintf\<close>) is the field \<open>vformat\<close> of \<open>env\<close>; the \<^verbatim>\<open>va_list\<close> is a
    value that a callee does not change for its caller.
  \<^item> A C string is a \<open>string\<close>; stored in a buffer it takes its length plus one byte.
  \<^item> A pointer is a natural number, \<open>NULL\<close> is \<open>0\<close>. \<^verbatim>\<open>malloc\<close> always succeeds and
    returns the next unused address.
  \<^item> \<^verbatim>\<open>xQueueSendToBack\<close> with zero ticks and \<^verbatim>\<open>xQueueReceive\<close> follow the FreeRTOS
    documentation; a receive on a queue that stays empty for the whole wait returns
    \<^verbatim>\<open>pdFALSE\<close> and does not write to its buffer.
  \<^item> The \<^verbatim>\<open>ESP_LOGx\<close> macros, \<^verbatim>\<open>vprintf\<close>, the transport's send function and \<^verbatim>\<open>free\<close>
    leave an event in the trace of the state, in the order in which they happen.
    \<^verbatim>\<open>vprintf\<close> succeeds and returns the number of characters it wrote.
  \<^item> The set-up of \<^verbatim>\<open>wifi_logger\<close> before its loop (the handle and the connection
    manager of the transport) is not part of the model.
\<close>

subsection \<open>Data\<close>

type_synonym ptr = nat

abbreviation NULL :: ptr where
  "NULL \<equiv> 0"

datatype esp_err_t = ESP_OK | ESP_FAIL

datatype esp_log_level_t =
  ESP_LOG_NONE | ESP_LOG_ERROR | ESP_LOG_WARN | ESP_LOG_INFO | ESP_LOG_DEBUG | ESP_LOG_VERBOSE

datatype transport = UDP | TCP | WEBSOCKET

datatype arg = ArgInt int | ArgStr string | ArgChar char

datatype event =
  EvLog esp_log_level_t string
  | EvConsole string
  | EvSend string
  | EvFree ptr

datatype fault = AssertFailed | BufferOverflow | InvalidFree | InvalidRead

record env =
  MESSAGE_QUEUE_SIZE :: nat
  BUFFER_SIZE :: nat
  TRANSPORT_PROTOCOL :: transport
  assert_active :: bool
  vformat :: "string \<Rightarrow> arg list \<Rightarrow> string"

record state =
  queue :: "ptr list"
  heap :: "ptr \<rightharpoonup> string"
  brk :: ptr
  trace :: "event list"

text \<open>
  A call either ends with a fault, in the last state before the faulting operation, or
  returns a value and the new state.
\<close>

type_synonym 'a result = "(fault \<times> state) + ('a \<times> state)"

abbreviation pdPASS :: int where
  "pdPASS \<equiv> 1"

abbreviation pdFALSE :: int where
  "pdFALSE \<equiv> 0"

abbreviation errQUEUE_FULL :: int where
  "errQUEUE_FULL \<equiv> 0"

subsection \<open>Platform operations\<close>

definition emit :: "event \<Rightarrow> state \<Rightarrow> state" where
  "emit e st = st\<lparr>trace := trace st @ [e]\<rparr>"

definition ESP_LOG :: "esp_log_level_t \<Rightarrow> string \<Rightarrow> state \<Rightarrow> state" where
  "ESP_LOG level msg st = emit (EvLog level msg) st"

definition malloc :: "state \<Rightarrow> ptr \<times> state" where
  "malloc st = (brk st, st\<lparr>heap := (heap st)(brk st \<mapsto> []), brk := Suc (brk st)\<rparr>)"

definition free :: "ptr \<Rightarrow> state \<Rightarrow> (fault \<times> state) + state" where
  "free p st =
     (if p = NULL then Inr st
      else case heap st p of
        None \<Rightarrow> Inl (InvalidFree, st)
      | Some c \<Rightarrow> Inr (emit (EvFree p) (st\<lparr>heap := (heap st)(p := None)\<rparr>)))"

definition xQueueSendToBack :: "env \<Rightarrow> ptr \<Rightarrow> state \<Rightarrow> int \<times> state" where
  "xQueueSendToBack e item st =
     (if length (queue st) < MESSAGE_QUEUE_SIZE e
      then (pdPASS, st\<lparr>queue := queue st @ [item]\<rparr>)
      else (errQUEUE_FULL, st))"

definition xQueueReceive :: "ptr \<Rightarrow> state \<Rightarrow> int \<times> ptr \<times> state" where
  "xQueueReceive buf st =
     (case queue st of
        [] \<Rightarrow> (pdFALSE, buf, st)
      | item # rest \<Rightarrow> (pdPASS, item, st\<lparr>queue := rest\<rparr>))"

subsection \<open>Decimal rendering of \<^verbatim>\<open>%d\<close>\<close>

definition digit_char :: "nat \<Rightarrow> char" where
  "digit_char d =
     (if d = 0 then CHR ''0'' else if d = 1 then CHR ''1'' else if d = 2 then CHR ''2''
      else if d = 3 then CHR ''3'' else if d = 4 then CHR ''4'' else if d = 5 then CHR ''5''
      else if d = 6 then CHR ''6'' else if d = 7 then CHR ''7'' else if d = 8 then CHR ''8''
      else CHR ''9'')"

fun show_nat :: "nat \<Rightarrow> string" where
  "show_nat n =
     (if n < 10 then [digit_char n] else show_nat (n div 10) @ [digit_char (n mod 10)])"

declare show_nat.simps [simp del]

definition show_int :: "int \<Rightarrow> string" where
  "show_int i = (if i < 0 then CHR ''-'' # show_nat (nat (- i)) else show_nat (nat i))"

subsection \<open>The queue functions\<close>

definition send_to_queue :: "env \<Rightarrow> ptr \<Rightarrow> state \<Rightarrow> esp_err_t \<times> state" where
  "send_to_queue e log_message st =
     (let (qerror, st1) = xQueueSendToBack e log_message st in
      if qerror = pdPASS then (ESP_OK, ESP_LOG ESP_LOG_DEBUG ''Data sent to Queue'' st1)
      else if qerror = errQUEUE_FULL
        then (ESP_FAIL, ESP_LOG ESP_LOG_ERROR ''Data not sent to Queue, Queue full'' st1)
      else (ESP_FAIL, ESP_LOG ESP_LOG_ERROR ''Unknown error'' st1))"

text \<open>
  \<open>data0\<close> is the value that the uninitialised local \<^verbatim>\<open>data\<close> happens to hold when the
  function is entered. \<^verbatim>\<open>configASSERT(qerror)\<close>, where it is compiled in, stops the
  program when \<^verbatim>\<open>qerror\<close> is zero, as the comment above the call says.
\<close>

definition receive_from_queue :: "env \<Rightarrow> ptr \<Rightarrow> state \<Rightarrow> ptr result" where
  "receive_from_queue e data0 st =
     (let (qerror, data, st1) = xQueueReceive data0 st in
      if assert_active e \<and> qerror = 0 then Inl (AssertFailed, st1)
      else if qerror = pdPASS
        then Inr (data, ESP_LOG ESP_LOG_DEBUG ''Data received from Queue'' st1)
      else if qerror = pdFALSE
        then (case free data st1 of
                Inl f \<Rightarrow> Inl f
              | Inr st2 \<Rightarrow> Inr (NULL, ESP_LOG ESP_LOG_WARN ''Data not received from Queue'' st2))
      else (case free data st1 of
              Inl f \<Rightarrow> Inl f
            | Inr st2 \<Rightarrow> Inr (NULL, ESP_LOG ESP_LOG_ERROR ''Unknown error'' st2)))"

subsection \<open>Producers\<close>

text \<open>
  Modelled from the spec: \<^verbatim>\<open>generate_log_message_timestamp\<close> is defined in the
  repository's \<^verbatim>\<open>util\<close> file, of which only the call is at hand. After the spec's
  Log Formatter (4.1) and the comment at the call, it allocates a new buffer that holds
  the message with the timestamp and the numeric severity rank put in front, and returns
  the buffer. The spec names the timestamp first and fixes no separators: the model
  writes the timestamp in decimal, a space, the rank in decimal and a space.
\<close>

definition generate_log_message_timestamp ::
    "nat \<Rightarrow> nat \<Rightarrow> string \<Rightarrow> state \<Rightarrow> ptr \<times> state" where
  "generate_log_message_timestamp log_level timestamp log_message st =
     (let (p, st1) = malloc st in
      (p, st1\<lparr>heap := (heap st1)(p \<mapsto>
             show_nat timestamp @ '' '' @ show_nat log_level @ '' '' @ log_message)\<rparr>))"

definition log_level_opt :: "esp_log_level_t \<Rightarrow> nat" where
  "log_level_opt level =
     (case level of
        ESP_LOG_ERROR \<Rightarrow> 0
      | ESP_LOG_WARN \<Rightarrow> 1
      | ESP_LOG_INFO \<Rightarrow> 2
      | ESP_LOG_DEBUG \<Rightarrow> 3
      | ESP_LOG_VERBOSE \<Rightarrow> 4
      | _ \<Rightarrow> 2)"

definition header :: "string \<Rightarrow> string \<Rightarrow> int \<Rightarrow> string" where
  "header TAG func line = TAG @ '' ('' @ func @ '':'' @ show_int line @ '') ''"

text \<open>
  \<^verbatim>\<open>sprintf\<close> and \<^verbatim>\<open>vsprintf\<close> write the text and a terminating zero byte without
  looking at the size of \<^verbatim>\<open>log_print_buffer\<close>: a text of \<^verbatim>\<open>BUFFER_SIZE\<close> characters
  or more goes past its end. \<open>now\<close> is what \<^verbatim>\<open>esp_log_timestamp()\<close> returns.
\<close>

definition generate_log_message ::
    "env \<Rightarrow> esp_log_level_t \<Rightarrow> string \<Rightarrow> int \<Rightarrow> string \<Rightarrow> string \<Rightarrow> arg list \<Rightarrow> nat
       \<Rightarrow> state \<Rightarrow> unit result" where
  "generate_log_message e level TAG line func fmt args now st =
     (if BUFFER_SIZE e \<le> length (header TAG func line) then Inl (BufferOverflow, st)
      else
        let len = length (header TAG func line) in
        if BUFFER_SIZE e \<le> len + length (vformat e fmt args) then Inl (BufferOverflow, st)
        else
          let log_print_buffer = header TAG func line @ vformat e fmt args;
              (p, st1) = generate_log_message_timestamp (log_level_opt level) now
                           log_print_buffer st;
              (err, st2) = send_to_queue e p st1
          in Inr ((), st2))"

text \<open>
  The hook mallocs \<^verbatim>\<open>BUFFER_SIZE\<close> bytes and lets \<^verbatim>\<open>vsprintf\<close> write into them, again
  unchecked. \<^verbatim>\<open>vprintf\<close> writes the same text to the console and returns its length.
\<close>

definition system_log_message_route :: "env \<Rightarrow> string \<Rightarrow> arg list \<Rightarrow> state \<Rightarrow> int result" where
  "system_log_message_route e fmt tag st =
     (let (log_print_buffer, st1) = malloc st in
      if BUFFER_SIZE e \<le> length (vformat e fmt tag) then Inl (BufferOverflow, st1)
      else
        let st2 = st1\<lparr>heap := (heap st1)(log_print_buffer \<mapsto> vformat e fmt tag)\<rparr>;
            (err, st3) = send_to_queue e log_print_buffer st2;
            st4 = emit (EvConsole (vformat e fmt tag)) st3
        in Inr (int (length (vformat e fmt tag)), st4))"

subsection \<open>The dispatch task\<close>

text \<open>
  \<^verbatim>\<open>send_data\<close>, \<^verbatim>\<open>tcp_send_data\<close> and \<^verbatim>\<open>websocket_send_data\<close> are the transport's; the
  value \<open>r\<close> that the call returns (a byte count, or a negative number when the send
  failed) is an input of the model.
\<close>

definition send_data :: "int \<Rightarrow> string \<Rightarrow> state \<Rightarrow> int \<times> state" where
  "send_data r log_message st = (r, emit (EvSend log_message) st)"

definition null_message :: "env \<Rightarrow> string" where
  "null_message e =
     (case TRANSPORT_PROTOCOL e of
        UDP \<Rightarrow> ''Unknown error - receiving log message''
      | TCP \<Rightarrow> ''Unknown error - receiving log message''
      | WEBSOCKET \<Rightarrow> ''Unknown error - log message corrupt'')"

text \<open>
  One pass through the body of \<^verbatim>\<open>while (true)\<close> in \<^verbatim>\<open>wifi_logger\<close>. Its input is the
  pair of the value in the uninitialised \<^verbatim>\<open>data\<close> of \<^verbatim>\<open>receive_from_queue\<close> and the
  transport's return value.
\<close>

definition wifi_logger_iteration :: "env \<Rightarrow> ptr \<times> int \<Rightarrow> state \<Rightarrow> unit result" where
  "wifi_logger_iteration e inp st =
     (case receive_from_queue e (fst inp) st of
        Inl f \<Rightarrow> Inl f
      | Inr (log_message, st1) \<Rightarrow>
          if log_message \<noteq> NULL then
            (case heap st1 log_message of
               None \<Rightarrow> Inl (InvalidRead, st1)
             | Some msg \<Rightarrow>
                 let (len, st2) = send_data (snd inp) msg st1;
                     st3 = ESP_LOG ESP_LOG_DEBUG (show_int len @ '' bytes of data sent'') st2
                 in (case free log_message st3 of
                       Inl f \<Rightarrow> Inl f
                     | Inr st4 \<Rightarrow> Inr ((), st4)))
          else
            let (len, st2) = send_data (snd inp) (null_message e) st1
            in Inr ((), ESP_LOG ESP_LOG_ERROR (show_int len @ '' Unknown error'') st2))"

text \<open>
  The loop never ends by itself. \<open>wifi_logger_loop\<close> runs one pass for each element of
  its input list and stops early at a fault.
\<close>

fun wifi_logger_loop :: "env \<Rightarrow> (ptr \<times> int) list \<Rightarrow> state \<Rightarrow> unit result" where
  "wifi_logger_loop e [] st = Inr ((), st)"
| "wifi_logger_loop e (inp # inps) st =
     (case wifi_logger_iteration e inp st of
        Inl f \<Rightarrow> Inl f
      | Inr (u, st1) \<Rightarrow> wifi_logger_loop e inps st1)"

subsection \<open>Observations and invariants\<close>

fun sends :: "event list \<Rightarrow> string list" where
  "sends [] = []"
| "sends (EvSend s # es) = s # sends es"
| "sends (ev # es) = sends es"

fun frees :: "event list \<Rightarrow> ptr list" where
  "frees [] = []"
| "frees (EvFree p # es) = p # frees es"
| "frees (ev # es) = frees es"

fun console :: "event list \<Rightarrow> string list" where
  "console [] = []"
| "console (EvConsole s # es) = s # console es"
| "console (ev # es) = console es"

text \<open>The state in which a call ended, with or without a fault.\<close>

definition final :: "'a result \<Rightarrow> state" where
  "final r = (case r of Inl (f, st) \<Rightarrow> st | Inr (x, st) \<Rightarrow> st)"

text \<open>The text a pointer points to; the empty text where nothing is allocated.\<close>

definition text_at :: "state \<Rightarrow> ptr \<Rightarrow> string" where
  "text_at st p = (case heap st p of None \<Rightarrow> [] | Some c \<Rightarrow> c)"

text \<open>
  Records are pointers that differ from each other and from \<open>NULL\<close> and point to live
  buffers. \<open>queue_ok\<close> says so of the queue; \<open>state_ok\<close> adds that the queue holds
  nothing that \<^verbatim>\<open>malloc\<close> has yet to return. The producers and the dispatch task keep
  \<open>state_ok\<close> (lemmas \<open>state_ok_route\<close>, \<open>state_ok_generate\<close>, \<open>state_ok_iteration\<close>).
\<close>

definition queue_ok :: "state \<Rightarrow> bool" where
  "queue_ok st \<longleftrightarrow> distinct (queue st) \<and> (\<forall>p \<in> set (queue st). p \<noteq> NULL \<and> heap st p \<noteq> None)"

definition state_ok :: "state \<Rightarrow> bool" where
  "state_ok st \<longleftrightarrow> queue_ok st \<and> 0 < brk st \<and> (\<forall>p \<in> set (queue st). p < brk st)"

subsection \<open>Schedules of producers and the dispatch task\<close>

text \<open>
  A schedule interleaves calls of the two producers with passes of the dispatch loop.
  \<open>run\<close> executes it on the code and stops at a fault.
\<close>

datatype action =
  Route string "arg list"
  | Generate esp_log_level_t string int string string "arg list" nat
  | Dispatch "ptr \<times> int"

fun run :: "env \<Rightarrow> action list \<Rightarrow> state \<Rightarrow> unit result" where
  "run e [] st = Inr ((), st)"
| "run e (Route fmt tag # acts) st =
     (case system_log_message_route e fmt tag st of
        Inl f \<Rightarrow> Inl f
      | Inr (n, st1) \<Rightarrow> run e acts st1)"
| "run e (Generate level TAG line func fmt args now # acts) st =
     (case generate_log_message e level TAG line func fmt args now st of
        Inl f \<Rightarrow> Inl f
      | Inr (u, st1) \<Rightarrow> run e acts st1)"
| "run e (Dispatch inp # acts) st =
     (case wifi_logger_iteration e inp st of
        Inl f \<Rightarrow> Inl f
      | Inr (u, st1) \<Rightarrow> run e acts st1)"

text \<open>
  The spec's queue and dispatch task (sections 3 and 5), on texts alone. The queue is a
  list of texts with the oldest in front. A producer's text goes to the back when the
  queue holds fewer than \<^verbatim>\<open>MESSAGE_QUEUE_SIZE\<close> texts and is dropped otherwise; a pass of
  the dispatch task takes the text in front and sends it. \<open>fifo_spec\<close> returns the texts
  sent in the order of sending and the queue that is left. It is \<open>None\<close> where the spec
  says nothing: a text that does not fit the buffer, a pass that finds the queue empty.
\<close>

fun fifo_spec :: "env \<Rightarrow> action list \<Rightarrow> string list \<Rightarrow> (string list \<times> string list) option" where
  "fifo_spec e [] pending = Some ([], pending)"
| "fifo_spec e (Route fmt tag # acts) pending =
     (if BUFFER_SIZE e \<le> length (vformat e fmt tag) then None
      else fifo_spec e acts
             (if length pending < MESSAGE_QUEUE_SIZE e then pending @ [vformat e fmt tag]
              else pending))"
| "fifo_spec e (Generate level TAG line func fmt args now # acts) pending =
     (if BUFFER_SIZE e \<le> length (header TAG func line) + length (vformat e fmt args) then None
      else fifo_spec e acts
             (if length pending < MESSAGE_QUEUE_SIZE e
              then pending @ [show_nat now @ '' '' @ show_nat (log_level_opt level) @ '' ''
                              @ header TAG func line @ vformat e fmt args]
              else pending))"
| "fifo_spec e (Dispatch inp # acts) pending =
     (case pending of
        [] \<Rightarrow> None
      | x # rest \<Rightarrow>
          (case fifo_spec e acts rest of
             None \<Rightarrow> None
           | Some (sent, left) \<Rightarrow> Some (x # sent, left)))"

fun passes :: "action list \<Rightarrow> nat" where
  "passes [] = 0"
| "passes (Dispatch inp # acts) = Suc (passes acts)"
| "passes (a # acts) = passes acts"

subsection \<open>A concrete environment\<close>

text \<open>
  An instance of \<open>vformat\<close> for the directives \<^verbatim>\<open>%s\<close>, \<^verbatim>\<open>%d\<close>, \<^verbatim>\<open>%c\<close> and \<^verbatim>\<open>%%\<close>; it
  serves to run the model on concrete inputs.
\<close>

definition render_arg :: "arg \<Rightarrow> string" where
  "render_arg a = (case a of ArgInt i \<Rightarrow> show_int i | ArgStr s \<Rightarrow> s | ArgChar c \<Rightarrow> [c])"

fun printf_sd :: "string \<Rightarrow> arg list \<Rightarrow> string" where
  "printf_sd [] args = []"
| "printf_sd [c] args = [c]"
| "printf_sd (c # d # fmt) args =
     (if c = CHR ''%'' then
        (if d = CHR ''%'' then CHR ''%'' # printf_sd fmt args
         else (case args of
                 [] \<Rightarrow> c # d # printf_sd fmt []
               | a # rest \<Rightarrow> render_arg a @ printf_sd fmt rest))
      else c # printf_sd (d # fmt) args)"

definition env0 :: env where
  "env0 = \<lparr>MESSAGE_QUEUE_SIZE = 5, BUFFER_SIZE = 512, TRANSPORT_PROTOCOL = UDP,
           assert_active = True, vformat = printf_sd\<rparr>"

text \<open>The state after start-up and a state whose queue is full.\<close>

definition st0 :: state where
  "st0 = \<lparr>queue = [], heap = Map.empty, brk = 1, trace = []\<rparr>"

definition st_full :: state where
  "st_full = \<lparr>queue = [1, 2, 3, 4, 5],
             heap = [1 \<mapsto> ''A'', 2 \<mapsto> ''B'', 3 \<mapsto> ''C'', 4 \<mapsto> ''D'', 5 \<mapsto> ''E''],
             brk = 6, trace = []\<rparr>"


section \<open>Properties\<close>

subsection \<open>Observations of a trace\<close>

lemma sends_append: "sends (xs @ ys) = sends xs @ sends ys"
  by (induction xs rule: sends.induct) simp_all

lemma frees_append: "frees (xs @ ys) = frees xs @ frees ys"
  by (induction xs rule: frees.induct) simp_all

lemma console_append: "console (xs @ ys) = console xs @ console ys"
  by (induction xs rule: console.induct) simp_all

lemmas eval_defs = env0_def st0_def st_full_def system_log_message_route_def
  generate_log_message_def generate_log_message_timestamp_def malloc_def free_def
  send_to_queue_def xQueueSendToBack_def xQueueReceive_def receive_from_queue_def
  wifi_logger_iteration_def send_data_def null_message_def ESP_LOG_def emit_def
  header_def log_level_opt_def render_arg_def show_int_def show_nat.simps
  digit_char_def

subsection \<open>What \<^verbatim>\<open>send_to_queue\<close> does to the state\<close>

lemma send_to_queue_full:
  "MESSAGE_QUEUE_SIZE e \<le> length (queue st) \<Longrightarrow>
   send_to_queue e p st =
     (ESP_FAIL, ESP_LOG ESP_LOG_ERROR ''Data not sent to Queue, Queue full'' st)"
  by (simp add: send_to_queue_def xQueueSendToBack_def)

lemma send_to_queue_fst:
  "fst (send_to_queue e p st) =
     (if length (queue st) < MESSAGE_QUEUE_SIZE e then ESP_OK else ESP_FAIL)"
  by (simp add: send_to_queue_def xQueueSendToBack_def)

lemma send_to_queue_queue:
  "queue (snd (send_to_queue e p st)) =
     (if length (queue st) < MESSAGE_QUEUE_SIZE e then queue st @ [p] else queue st)"
  by (simp add: send_to_queue_def xQueueSendToBack_def ESP_LOG_def emit_def)

lemma send_to_queue_heap: "heap (snd (send_to_queue e p st)) = heap st"
  by (simp add: send_to_queue_def xQueueSendToBack_def ESP_LOG_def emit_def)

lemma send_to_queue_brk: "brk (snd (send_to_queue e p st)) = brk st"
  by (simp add: send_to_queue_def xQueueSendToBack_def ESP_LOG_def emit_def)

lemma send_to_queue_trace:
  "trace (snd (send_to_queue e p st)) = trace st @
     [if length (queue st) < MESSAGE_QUEUE_SIZE e
      then EvLog ESP_LOG_DEBUG ''Data sent to Queue''
      else EvLog ESP_LOG_ERROR ''Data not sent to Queue, Queue full'']"
  by (simp add: send_to_queue_def xQueueSendToBack_def ESP_LOG_def emit_def)

subsection \<open>The producers on a text that fits\<close>

lemma route_fits:
  assumes "length (vformat e fmt tag) < BUFFER_SIZE e"
  shows "system_log_message_route e fmt tag st =
     Inr (int (length (vformat e fmt tag)),
          emit (EvConsole (vformat e fmt tag))
            (snd (send_to_queue e (brk st)
               (st\<lparr>brk := Suc (brk st), heap := (heap st)(brk st \<mapsto> vformat e fmt tag)\<rparr>))))"
  using assms
  by (simp add: system_log_message_route_def malloc_def Let_def case_prod_beta)

lemma generate_fits:
  assumes "length (header TAG func line) + length (vformat e fmt args) < BUFFER_SIZE e"
  shows "generate_log_message e level TAG line func fmt args now st =
     Inr ((), snd (send_to_queue e (brk st)
        (st\<lparr>brk := Suc (brk st), heap := (heap st)(brk st \<mapsto>
                show_nat now @ '' '' @ show_nat (log_level_opt level) @ '' ''
                  @ header TAG func line @ vformat e fmt args)\<rparr>)))"
  using assms
  by (simp add: generate_log_message_def generate_log_message_timestamp_def malloc_def Let_def
      case_prod_beta)

lemma generate_overflow:
  assumes "BUFFER_SIZE e \<le> length (header TAG func line) + length (vformat e fmt args)"
  shows "generate_log_message e level TAG line func fmt args now st = Inl (BufferOverflow, st)"
  using assms by (simp add: generate_log_message_def Let_def)

lemma log_level_opt_ranks:
  "log_level_opt ESP_LOG_ERROR = 0" "log_level_opt ESP_LOG_WARN = 1"
  "log_level_opt ESP_LOG_INFO = 2" "log_level_opt ESP_LOG_DEBUG = 3"
  "log_level_opt ESP_LOG_VERBOSE = 4" "log_level_opt ESP_LOG_NONE = 2"
  by (simp_all add: log_level_opt_def)

subsection \<open>One pass of the dispatch loop\<close>

lemma receive_from_queue_record:
  "queue st = p # q \<Longrightarrow>
   receive_from_queue e data0 st =
     Inr (p, ESP_LOG ESP_LOG_DEBUG ''Data received from Queue'' (st\<lparr>queue := q\<rparr>))"
  by (simp add: receive_from_queue_def xQueueReceive_def)

lemma iteration_record:
  assumes "queue st = p # q" and "p \<noteq> NULL" and "heap st p = Some c"
  shows "wifi_logger_iteration e inp st =
     Inr ((), st\<lparr>queue := q, heap := (heap st)(p := None),
                trace := trace st @
                  [EvLog ESP_LOG_DEBUG ''Data received from Queue'', EvSend c,
                   EvLog ESP_LOG_DEBUG (show_int (snd inp) @ '' bytes of data sent''),
                   EvFree p]\<rparr>)"
  using assms
  by (simp add: wifi_logger_iteration_def receive_from_queue_record [OF assms(1)]
      ESP_LOG_def emit_def send_data_def free_def)

lemma iteration_empty:
  "queue st = [] \<Longrightarrow> assert_active e \<Longrightarrow>
   wifi_logger_iteration e inp st = Inl (AssertFailed, st)"
  by (simp add: wifi_logger_iteration_def receive_from_queue_def xQueueReceive_def)

text \<open>
  Where \<^verbatim>\<open>configASSERT\<close> is compiled out, a pass on an empty queue reaches
  \<^verbatim>\<open>free((void*)data)\<close> with the value \<^verbatim>\<open>data\<close> had on entry: with \<open>NULL\<close> there the
  pass goes on and sends the error text, with the address of no live buffer it is an
  invalid free.
\<close>

lemma iteration_empty_no_assert_null:
  assumes "queue st = []" and "\<not> assert_active e"
  shows "wifi_logger_iteration e (NULL, r) st =
     Inr ((), st\<lparr>trace := trace st @
                  [EvLog ESP_LOG_WARN ''Data not received from Queue'',
                   EvSend (null_message e),
                   EvLog ESP_LOG_ERROR (show_int r @ '' Unknown error'')]\<rparr>)"
  using assms
  by (simp add: wifi_logger_iteration_def receive_from_queue_def xQueueReceive_def free_def
      ESP_LOG_def emit_def send_data_def)

lemma iteration_empty_no_assert_junk:
  assumes "queue st = []" and "\<not> assert_active e" and "data0 \<noteq> NULL" and "heap st data0 = None"
  shows "wifi_logger_iteration e (data0, r) st = Inl (InvalidFree, st)"
  using assms
  by (simp add: wifi_logger_iteration_def receive_from_queue_def xQueueReceive_def free_def)

subsection \<open>The dispatch loop on a queue of records\<close>

text \<open>
  As many passes as the list \<open>inps\<close> is long, on a queue that holds at least as many
  records: every pass succeeds, and the passes send and free the first records of the
  queue in the order of the queue.
\<close>

lemma loop_prefix:
  "queue_ok st \<Longrightarrow> length inps \<le> length (queue st) \<Longrightarrow>
   \<exists>st'. wifi_logger_loop e inps st = Inr ((), st')
     \<and> queue st' = drop (length inps) (queue st)
     \<and> queue_ok st'
     \<and> brk st' = brk st
     \<and> (\<forall>p. heap st' p = (if p \<in> set (take (length inps) (queue st)) then None else heap st p))
     \<and> sends (trace st') = sends (trace st) @ map (text_at st) (take (length inps) (queue st))
     \<and> frees (trace st') = frees (trace st) @ take (length inps) (queue st)"
proof (induction inps arbitrary: st)
  case Nil
  then show ?case by simp
next
  case (Cons inp inps)
  note ok = Cons.prems(1) and len = Cons.prems(2)
  from len obtain p q where pq: "queue st = p # q"
    by (cases "queue st") auto
  with ok have p: "p \<noteq> NULL" "p \<notin> set q" "distinct q" and "heap st p \<noteq> None"
    by (auto simp: queue_ok_def)
  then obtain c where c: "heap st p = Some c" by auto
  let ?st1 = "st\<lparr>queue := q, heap := (heap st)(p := None),
                trace := trace st @
                  [EvLog ESP_LOG_DEBUG ''Data received from Queue'', EvSend c,
                   EvLog ESP_LOG_DEBUG (show_int (snd inp) @ '' bytes of data sent''),
                   EvFree p]\<rparr>"
  have it: "wifi_logger_iteration e inp st = Inr ((), ?st1)"
    by (rule iteration_record [OF pq p(1) c])
  have ok1: "queue_ok ?st1"
    using ok pq p by (auto simp: queue_ok_def)
  have len1: "length inps \<le> length (queue ?st1)"
    using len pq by simp
  from Cons.IH [OF ok1 len1] obtain st' where
    run: "wifi_logger_loop e inps ?st1 = Inr ((), st')"
    and q': "queue st' = drop (length inps) q"
    and ok': "queue_ok st'"
    and b': "brk st' = brk st"
    and h': "\<forall>x. heap st' x = (if x \<in> set (take (length inps) q) then None
                                else ((heap st)(p := None)) x)"
    and s': "sends (trace st') = sends (trace ?st1) @ map (text_at ?st1) (take (length inps) q)"
    and f': "frees (trace st') = frees (trace ?st1) @ take (length inps) q"
    by auto
  have same: "map (text_at ?st1) (take (length inps) q) = map (text_at st) (take (length inps) q)"
    using p(2) by (auto simp: text_at_def dest: in_set_takeD)
  have "wifi_logger_loop e (inp # inps) st = Inr ((), st')"
    by (simp add: it run)
  moreover have "queue st' = drop (length (inp # inps)) (queue st)"
    by (simp add: q' pq)
  moreover have "\<forall>x. heap st' x =
      (if x \<in> set (take (length (inp # inps)) (queue st)) then None else heap st x)"
    using h' by (simp add: pq)
  moreover have "sends (trace st') =
      sends (trace st) @ map (text_at st) (take (length (inp # inps)) (queue st))"
    using s' same by (simp add: pq sends_append text_at_def c)
  moreover have "frees (trace st') = frees (trace st) @ take (length (inp # inps)) (queue st)"
    using f' by (simp add: pq frees_append)
  ultimately show ?case using ok' b' by blast
qed

subsection \<open>The invariant of the reachable states\<close>

lemma queue_ok_st_full: "queue_ok st_full"
  by (simp add: queue_ok_def st_full_def)

lemma state_ok_st0: "state_ok st0"
  by (simp add: state_ok_def queue_ok_def st0_def)

lemma state_ok_trace: "state_ok (st\<lparr>trace := t\<rparr>) = state_ok st"
  by (simp add: state_ok_def queue_ok_def)

lemma state_ok_enqueue_fresh:
  assumes "state_ok st"
  shows "state_ok (snd (send_to_queue e (brk st)
            (st\<lparr>brk := Suc (brk st), heap := (heap st)(brk st \<mapsto> body)\<rparr>)))"
proof -
  from assms have "brk st \<notin> set (queue st)"
    by (auto simp: state_ok_def)
  with assms show ?thesis
    by (auto simp: state_ok_def queue_ok_def send_to_queue_queue send_to_queue_heap
        send_to_queue_brk less_Suc_eq)
qed

lemma state_ok_route:
  assumes "state_ok st" and "system_log_message_route e fmt tag st = Inr (n, st')"
  shows "state_ok st'"
proof (cases "length (vformat e fmt tag) < BUFFER_SIZE e")
  case True
  from assms(2) state_ok_enqueue_fresh [OF assms(1)] show ?thesis
    by (auto simp: route_fits [OF True] emit_def state_ok_trace)
next
  case False
  with assms(2) show ?thesis
    by (simp add: system_log_message_route_def malloc_def)
qed

lemma state_ok_generate:
  assumes "state_ok st"
    and "generate_log_message e level TAG line func fmt args now st = Inr (u, st')"
  shows "state_ok st'"
proof (cases "length (header TAG func line) + length (vformat e fmt args) < BUFFER_SIZE e")
  case True
  from assms(2) state_ok_enqueue_fresh [OF assms(1)] show ?thesis
    by (auto simp: generate_fits [OF True])
next
  case False
  with assms(2) show ?thesis
    by (simp add: generate_overflow)
qed

lemma state_ok_iteration:
  assumes "state_ok st" and "assert_active e"
    and "wifi_logger_iteration e inp st = Inr (u, st')"
  shows "state_ok st'"
proof (cases "queue st")
  case Nil
  with assms show ?thesis by (simp add: iteration_empty)
next
  case (Cons p q)
  with assms(1) have p: "p \<noteq> NULL" "heap st p \<noteq> None"
    by (auto simp: state_ok_def queue_ok_def)
  then obtain c where c: "heap st p = Some c" by auto
  from assms(3) iteration_record [OF Cons p(1) c, of e inp] assms(1) Cons show ?thesis
    by (auto simp: state_ok_def queue_ok_def)
qed

subsection \<open>The spec's queue\<close>

text \<open>
  In the spec's queue every pass sends one text, and as many passes as the queue holds
  texts send them in the order of the queue.
\<close>

lemma fifo_spec_one_per_pass:
  "fifo_spec e acts pending = Some (sent, left) \<Longrightarrow> length sent = passes acts"
proof (induction acts arbitrary: pending sent left)
  case Nil
  then show ?case by simp
next
  case (Cons a acts)
  then show ?case
    by (cases a) (auto split: if_splits list.splits option.splits)
qed

lemma fifo_spec_drain:
  "fifo_spec e (replicate (length pending) (Dispatch inp)) pending = Some (pending, [])"
  by (induction pending) simp_all

subsection \<open>Texts of the queue across one step\<close>

lemma enqueue_fresh_texts:
  assumes "state_ok st"
  shows "map (text_at (snd (send_to_queue e (brk st)
              (st\<lparr>brk := Suc (brk st), heap := (heap st)(brk st \<mapsto> body)\<rparr>))))
           (queue (snd (send_to_queue e (brk st)
              (st\<lparr>brk := Suc (brk st), heap := (heap st)(brk st \<mapsto> body)\<rparr>))))
         = (if length (queue st) < MESSAGE_QUEUE_SIZE e
            then map (text_at st) (queue st) @ [body] else map (text_at st) (queue st))"
proof -
  from assms have "brk st \<notin> set (queue st)"
    by (auto simp: state_ok_def)
  then have "map (\<lambda>p. case ((heap st)(brk st \<mapsto> body)) p of None \<Rightarrow> [] | Some c \<Rightarrow> c) (queue st)
      = map (\<lambda>p. case heap st p of None \<Rightarrow> [] | Some c \<Rightarrow> c) (queue st)"
    by (intro map_cong) auto
  then show ?thesis
    by (simp add: text_at_def send_to_queue_queue send_to_queue_heap)
qed

lemma dequeue_texts:
  assumes "p \<notin> set q"
  shows "map (text_at (st\<lparr>queue := q, heap := (heap st)(p := None), trace := t\<rparr>)) q
         = map (text_at st) q"
  using assms by (auto simp: text_at_def)

section \<open>The claims\<close>

subsection \<open>C1: a receive whose wait elapses\<close>

text \<open>
  Claim C1, as the code has it: when \<^verbatim>\<open>receive_from_queue\<close> is called on an empty queue
  and the wait elapses, with \<^verbatim>\<open>configASSERT\<close> compiled in, the call stops at the failed
  assertion in the state in which it was entered: it returns no outcome, and it has
  freed no buffer, read no buffer and logged nothing.
\<close>

theorem receive_timeout_aborts:
  "queue st = [] \<Longrightarrow> assert_active e \<Longrightarrow>
   receive_from_queue e data0 st = Inl (AssertFailed, st)"
  by (simp add: receive_from_queue_def xQueueReceive_def)

text \<open>The theorem at the state after start-up, with an arbitrary value in \<^verbatim>\<open>data\<close>.\<close>

theorem receive_timeout_aborts_witness:
  "queue st0 = [] \<and> assert_active env0
   \<and> receive_from_queue env0 7 st0 = Inl (AssertFailed, st0)"
  using receive_timeout_aborts [of st0 env0 7] by (simp add: env0_def st0_def)

text \<open>
  C1 as stated asks for a returned timed-out outcome. On the empty queue after start-up
  the call returns nothing: it ends in the fault of the assertion.
\<close>

theorem receive_timeout_no_outcome:
  "receive_from_queue env0 NULL st0 = Inl (AssertFailed, st0)"
  by (simp add: eval_defs)

subsection \<open>C2: a record that the full queue rejects\<close>

text \<open>
  Claim C2 at a failing input: the queue of capacity five holds five records and the
  hook is called with \<^verbatim>\<open>"up %d"\<close> and \<^verbatim>\<open>3\<close>. \<^verbatim>\<open>send_to_queue\<close> rejects the new record
  without waiting (the error line of the full queue is logged), and the hook returns with
  the record's buffer at address 6 still allocated, in no queue, and never freed.
\<close>

theorem route_rejected_record_leaks:
  "system_log_message_route env0 ''up %d'' [ArgInt 3] st_full =
     Inr (4, st_full\<lparr>brk := 7, heap := (heap st_full)(6 \<mapsto> ''up 3''),
               trace := [EvLog ESP_LOG_ERROR ''Data not sent to Queue, Queue full'',
                         EvConsole ''up 3'']\<rparr>)
   \<and> heap (final (system_log_message_route env0 ''up %d'' [ArgInt 3] st_full)) 6 = Some ''up 3''
   \<and> 6 \<notin> set (queue (final (system_log_message_route env0 ''up %d'' [ArgInt 3] st_full)))
   \<and> frees (trace (final (system_log_message_route env0 ''up %d'' [ArgInt 3] st_full))) = []"
  by (simp add: eval_defs final_def)

subsection \<open>C3: which errors end the program\<close>




subsection \<open>C4: repeated send failures\<close>

text \<open>
  Claim C4, as the code has it: the dispatch loop has no degraded mode. Whatever the
  transport returned in the passes before, in particular after any number of failed
  sends in a row, the next pass takes the next record from the queue, hands its text to
  the transport and frees it.
\<close>

theorem dispatch_sends_after_failures:
  assumes "queue_ok st" and "length inps < length (queue st)"
  shows "\<exists>st1 st2 c. wifi_logger_loop e inps st = Inr ((), st1)
     \<and> heap st (queue st ! length inps) = Some c
     \<and> wifi_logger_iteration e inp st1 = Inr ((), st2)
     \<and> trace st2 = trace st1 @
          [EvLog ESP_LOG_DEBUG ''Data received from Queue'', EvSend c,
           EvLog ESP_LOG_DEBUG (show_int (snd inp) @ '' bytes of data sent''),
           EvFree (queue st ! length inps)]
     \<and> queue st2 = drop (Suc (length inps)) (queue st)"
proof -
  let ?n = "length inps"
  let ?p = "queue st ! ?n"
  from assms(2) have le: "?n \<le> length (queue st)" by simp
  from loop_prefix [OF assms(1) le, of e] obtain st1 where
    run: "wifi_logger_loop e inps st = Inr ((), st1)"
    and q1: "queue st1 = drop ?n (queue st)"
    and h1: "\<forall>p. heap st1 p = (if p \<in> set (take ?n (queue st)) then None else heap st p)"
    by blast
  have split: "queue st = take ?n (queue st) @ ?p # drop (Suc ?n) (queue st)"
    using assms(2) by (simp add: id_take_nth_drop [symmetric])
  have q1': "queue st1 = ?p # drop (Suc ?n) (queue st)"
    using assms(2) by (simp add: q1 Cons_nth_drop_Suc)
  have mem: "?p \<in> set (queue st)"
    using assms(2) by simp
  with assms(1) have nz: "?p \<noteq> NULL" and al: "heap st ?p \<noteq> None"
    by (auto simp: queue_ok_def)
  have "distinct (take ?n (queue st) @ ?p # drop (Suc ?n) (queue st))"
    using assms(1) split by (simp add: queue_ok_def)
  then have notin: "?p \<notin> set (take ?n (queue st))"
    by simp
  from al obtain c where c: "heap st ?p = Some c" by auto
  with h1 notin have c1: "heap st1 ?p = Some c" by simp
  from iteration_record [OF q1' nz c1, of e inp] run c show ?thesis
    by simp
qed

text \<open>
  The theorem after three failed sends in a row: the fourth pass sends the fourth
  record, \<open>D\<close>, and frees it.
\<close>

theorem dispatch_sends_after_failures_witness:
  "queue_ok st_full \<and> length [(NULL, - 1), (NULL, - 1), (NULL, - 1)] < length (queue st_full)
   \<and> (\<exists>st1 st2. wifi_logger_loop env0 [(NULL, - 1), (NULL, - 1), (NULL, - 1)] st_full = Inr ((), st1)
     \<and> wifi_logger_iteration env0 (NULL, - 1) st1 = Inr ((), st2)
     \<and> trace st2 = trace st1 @
          [EvLog ESP_LOG_DEBUG ''Data received from Queue'', EvSend ''D'',
           EvLog ESP_LOG_DEBUG ''-1 bytes of data sent'', EvFree 4]
     \<and> queue st2 = [5])"
  using dispatch_sends_after_failures
      [of st_full "[(NULL, - 1), (NULL, - 1), (NULL, - 1)]" env0 "(NULL, - 1)"]
    queue_ok_st_full
  by (simp add: st_full_def show_int_def show_nat.simps digit_char_def)

text \<open>
  C4 as stated has the task skip the send after enough failures. With a transport that
  fails on every send, five passes on five records complete and hand all five texts to
  the transport: no send is skipped.
\<close>

theorem no_degraded_state:
  "\<not> isl (wifi_logger_loop env0
        [(NULL, - 1), (NULL, - 1), (NULL, - 1), (NULL, - 1), (NULL, - 1)] st_full)
   \<and> sends (trace (final (wifi_logger_loop env0
        [(NULL, - 1), (NULL, - 1), (NULL, - 1), (NULL, - 1), (NULL, - 1)] st_full)))
      = [''A'', ''B'', ''C'', ''D'', ''E'']"
  by (simp add: eval_defs final_def)

subsection \<open>C5: the order of the sends\<close>

text \<open>
  Claim C5: the code does what the spec's queue does. Take a state that the program can
  be in and a schedule of producer calls and dispatch passes in which every text fits
  its buffer and every pass finds a record. Then the schedule runs to its end without a
  fault, the texts handed to the transport during it are those that the spec's queue
  sends, in that order (one text per pass, the oldest accepted record first), and the
  texts left in the queue are those left in the spec's queue.
\<close>

theorem dispatch_fifo_order:
  assumes "state_ok st"
    and "fifo_spec e acts (map (text_at st) (queue st)) = Some (sent, left)"
  shows "\<exists>st'. run e acts st = Inr ((), st')
     \<and> sends (trace st') = sends (trace st) @ sent
     \<and> map (text_at st') (queue st') = left
     \<and> state_ok st'"
  using assms
proof (induction acts arbitrary: st sent left)
  case Nil
  then show ?case by simp
next
  case (Cons a acts)
  note ok = Cons.prems(1) and spec = Cons.prems(2)
  show ?case
  proof (cases a)
    case (Route fmt tag)
    from spec Route have fits: "length (vformat e fmt tag) < BUFFER_SIZE e"
      by (simp split: if_splits)
    define st1 where "st1 = snd (send_to_queue e (brk st)
        (st\<lparr>brk := Suc (brk st), heap := (heap st)(brk st \<mapsto> vformat e fmt tag)\<rparr>))"
    define st2 where "st2 = emit (EvConsole (vformat e fmt tag)) st1"
    have r: "system_log_message_route e fmt tag st = Inr (int (length (vformat e fmt tag)), st2)"
      by (simp add: route_fits [OF fits] st1_def st2_def)
    have ok1: "state_ok st1"
      unfolding st1_def by (rule state_ok_enqueue_fresh [OF ok])
    then have ok2: "state_ok st2"
      by (simp add: st2_def emit_def state_ok_trace)
    have t1: "map (text_at st1) (queue st1) =
        (if length (queue st) < MESSAGE_QUEUE_SIZE e
         then map (text_at st) (queue st) @ [vformat e fmt tag] else map (text_at st) (queue st))"
      unfolding st1_def by (rule enqueue_fresh_texts [OF ok])
    have t2: "map (text_at st2) (queue st2) = map (text_at st1) (queue st1)"
      by (simp add: st2_def emit_def text_at_def)
    have s2: "sends (trace st2) = sends (trace st)"
      by (simp add: st2_def st1_def emit_def send_to_queue_trace sends_append)
    from spec Route fits
    have "fifo_spec e acts (map (text_at st2) (queue st2)) = Some (sent, left)"
      by (auto simp: t2 t1 split: if_splits)
    from Cons.IH [OF ok2 this] show ?thesis
      by (simp add: Route r s2)
  next
    case (Generate level TAG line func fmt args now)
    from spec Generate
    have fits: "length (header TAG func line) + length (vformat e fmt args) < BUFFER_SIZE e"
      by (simp split: if_splits)
    define body where "body = show_nat now @ '' '' @ show_nat (log_level_opt level) @ '' ''
                  @ header TAG func line @ vformat e fmt args"
    define st1 where "st1 = snd (send_to_queue e (brk st)
        (st\<lparr>brk := Suc (brk st), heap := (heap st)(brk st \<mapsto> body)\<rparr>))"
    have r: "generate_log_message e level TAG line func fmt args now st = Inr ((), st1)"
      by (simp add: generate_fits [OF fits] st1_def body_def)
    have ok1: "state_ok st1"
      unfolding st1_def by (rule state_ok_enqueue_fresh [OF ok])
    have t1: "map (text_at st1) (queue st1) =
        (if length (queue st) < MESSAGE_QUEUE_SIZE e
         then map (text_at st) (queue st) @ [body] else map (text_at st) (queue st))"
      unfolding st1_def by (rule enqueue_fresh_texts [OF ok])
    have s1: "sends (trace st1) = sends (trace st)"
      by (simp add: st1_def send_to_queue_trace sends_append)
    from spec Generate fits
    have "fifo_spec e acts (map (text_at st1) (queue st1)) = Some (sent, left)"
      by (auto simp: t1 body_def split: if_splits)
    from Cons.IH [OF ok1 this] show ?thesis
      by (simp add: Generate r s1)
  next
    case (Dispatch inp)
    from spec Dispatch obtain p q where pq: "queue st = p # q"
      by (cases "queue st") auto
    with ok have p: "p \<noteq> NULL" "heap st p \<noteq> None" "p \<notin> set q"
      by (auto simp: state_ok_def queue_ok_def)
    then obtain c where c: "heap st p = Some c" by auto
    define st1 where "st1 = st\<lparr>queue := q, heap := (heap st)(p := None),
                trace := trace st @
                  [EvLog ESP_LOG_DEBUG ''Data received from Queue'', EvSend c,
                   EvLog ESP_LOG_DEBUG (show_int (snd inp) @ '' bytes of data sent''),
                   EvFree p]\<rparr>"
    have it: "wifi_logger_iteration e inp st = Inr ((), st1)"
      unfolding st1_def by (rule iteration_record [OF pq p(1) c])
    have ok1: "state_ok st1"
      using ok pq by (auto simp: state_ok_def queue_ok_def st1_def)
    have q1: "queue st1 = q" and s1: "sends (trace st1) = sends (trace st) @ [c]"
      by (simp_all add: st1_def sends_append)
    have t1: "map (text_at st1) (queue st1) = map (text_at st) q"
      using dequeue_texts [OF p(3), where st = st] by (simp add: st1_def)
    have cp: "text_at st p = c"
      by (simp add: text_at_def c)
    from spec Dispatch pq cp obtain sent1 where
      sp: "fifo_spec e acts (map (text_at st) q) = Some (sent1, left)" and sent: "sent = c # sent1"
      by (auto split: option.splits)
    from sp have "fifo_spec e acts (map (text_at st1) (queue st1)) = Some (sent1, left)"
      by (simp add: t1)
    from Cons.IH [OF ok1 this] show ?thesis
      by (simp add: Dispatch it s1 sent)
  qed
qed

text \<open>
  The theorem on the records \<open>A\<close>, \<open>B\<close>, \<open>C\<close>, a queue of capacity five and three
  passes, one of them with a failing send: the transport sees \<open>A\<close>, \<open>B\<close>, \<open>C\<close> and the
  queue is empty afterwards.
\<close>

theorem dispatch_fifo_order_witness:
  "state_ok st0
   \<and> fifo_spec env0
        [Route ''A'' [], Route ''B'' [], Route ''C'' [],
         Dispatch (NULL, 1), Dispatch (NULL, - 1), Dispatch (NULL, 1)]
        (map (text_at st0) (queue st0)) = Some ([''A'', ''B'', ''C''], [])
   \<and> (\<exists>st'. run env0
        [Route ''A'' [], Route ''B'' [], Route ''C'' [],
         Dispatch (NULL, 1), Dispatch (NULL, - 1), Dispatch (NULL, 1)] st0 = Inr ((), st')
      \<and> sends (trace st') = [''A'', ''B'', ''C''] \<and> queue st' = [])"
proof -
  let ?acts = "[Route ''A'' [], Route ''B'' [], Route ''C'' [],
         Dispatch (NULL, 1), Dispatch (NULL, - 1), Dispatch (NULL, 1)]"
  have sp: "fifo_spec env0 ?acts (map (text_at st0) (queue st0)) = Some ([''A'', ''B'', ''C''], [])"
    by (simp add: env0_def st0_def)
  from dispatch_fifo_order [OF state_ok_st0 sp] obtain st' where
    "run env0 ?acts st0 = Inr ((), st')" "sends (trace st') = sends (trace st0) @ [''A'', ''B'', ''C'']"
    "map (text_at st') (queue st') = []"
    by blast
  then have "run env0 ?acts st0 = Inr ((), st') \<and> sends (trace st') = [''A'', ''B'', ''C'']
      \<and> queue st' = []"
    by (simp add: st0_def)
  with state_ok_st0 sp show ?thesis
    by blast
qed

subsection \<open>C6: a dequeued record is freed once\<close>

text \<open>
  Claim C6: a pass of the dispatch loop on a queue of records takes the first record,
  calls the transport's send with its text and then frees its buffer, once, whatever
  the send returned. After the pass the buffer is no longer allocated and the record is
  not in the queue, so that no later pass takes it again.
\<close>

theorem dispatch_frees_once:
  assumes "queue_ok st" and "queue st = p # q"
  shows "\<exists>c st'. heap st p = Some c
     \<and> wifi_logger_iteration e inp st = Inr ((), st')
     \<and> trace st' = trace st @
          [EvLog ESP_LOG_DEBUG ''Data received from Queue'', EvSend c,
           EvLog ESP_LOG_DEBUG (show_int (snd inp) @ '' bytes of data sent''), EvFree p]
     \<and> heap st' = (heap st)(p := None)
     \<and> queue st' = q \<and> p \<notin> set (queue st') \<and> queue_ok st'"
proof -
  from assms have p: "p \<noteq> NULL" "p \<notin> set q" "distinct q" "heap st p \<noteq> None"
    by (auto simp: queue_ok_def)
  then obtain c where c: "heap st p = Some c" by auto
  have "queue_ok (st\<lparr>queue := q, heap := (heap st)(p := None),
                trace := trace st @
                  [EvLog ESP_LOG_DEBUG ''Data received from Queue'', EvSend c,
                   EvLog ESP_LOG_DEBUG (show_int (snd inp) @ '' bytes of data sent''),
                   EvFree p]\<rparr>)"
    using assms p by (auto simp: queue_ok_def)
  with iteration_record [OF assms(2) p(1) c, of e inp] c p(2) show ?thesis
    by simp
qed

text \<open>The theorem on the full queue, with a send that fails and a send that succeeds.\<close>

theorem dispatch_frees_once_witness:
  "queue_ok st_full \<and> queue st_full = 1 # [2, 3, 4, 5]
   \<and> (\<exists>st'. wifi_logger_iteration env0 (NULL, - 1) st_full = Inr ((), st')
     \<and> trace st' = [EvLog ESP_LOG_DEBUG ''Data received from Queue'', EvSend ''A'',
           EvLog ESP_LOG_DEBUG ''-1 bytes of data sent'', EvFree 1]
     \<and> heap st' 1 = None \<and> queue st' = [2, 3, 4, 5])
   \<and> (\<exists>st'. wifi_logger_iteration env0 (NULL, 1) st_full = Inr ((), st')
     \<and> trace st' = [EvLog ESP_LOG_DEBUG ''Data received from Queue'', EvSend ''A'',
           EvLog ESP_LOG_DEBUG ''1 bytes of data sent'', EvFree 1]
     \<and> heap st' 1 = None \<and> queue st' = [2, 3, 4, 5])"
  using dispatch_frees_once [of st_full 1 "[2, 3, 4, 5]" env0 "(NULL, - 1)"]
    dispatch_frees_once [of st_full 1 "[2, 3, 4, 5]" env0 "(NULL, 1)"] queue_ok_st_full
  by (auto simp: st_full_def show_int_def show_nat.simps digit_char_def)

subsection \<open>C7: a message longer than the buffer\<close>

text \<open>
  Claim C7 at a failing input: with a buffer of 512 bytes, \<^verbatim>\<open>generate_log_message\<close> is
  called with the tag \<^verbatim>\<open>app\<close>, the function \<^verbatim>\<open>main\<close>, line 42, the format \<^verbatim>\<open>"%s"\<close> and a
  string of 600 characters. Header and message have 614 characters; \<^verbatim>\<open>vsprintf\<close> writes
  them past the end of \<^verbatim>\<open>log_print_buffer\<close>. Nothing is cut off.
\<close>

theorem generate_log_message_overflows:
  "BUFFER_SIZE env0 = 512
   \<and> length (header ''app'' ''main'' 42
             @ vformat env0 ''%s'' [ArgStr (replicate 600 (CHR ''A''))]) = 614
   \<and> generate_log_message env0 ESP_LOG_INFO ''app'' 42 ''main'' ''%s''
        [ArgStr (replicate 600 (CHR ''A''))] 1000 st0 = Inl (BufferOverflow, st0)"
  by (simp add: generate_log_message_def env0_def header_def render_arg_def show_int_def
      show_nat.simps digit_char_def)

subsection \<open>C8: the text of a formatted record\<close>

text \<open>
  Claim C8: when header and expanded message fit the buffer, \<^verbatim>\<open>generate_log_message\<close>
  returns, and the record it has produced (the buffer at the address that \<^verbatim>\<open>malloc\<close>
  hands out next) holds the timestamp and the severity rank (0 for an error, 1 for a
  warning, 3 for debug, 4 for verbose, 2 for info and any other level), then the header
  \<^verbatim>\<open>"<tag> (<function>:<line>) "\<close>, then the expansion of the format with the arguments.
  The record is at the back of the queue when the queue had room.
\<close>

theorem generate_log_message_record:
  assumes "length (header TAG func line) + length (vformat e fmt args) < BUFFER_SIZE e"
  shows "\<exists>st'. generate_log_message e level TAG line func fmt args now st = Inr ((), st')
     \<and> heap st' (brk st) =
         Some (show_nat now @ '' ''
               @ show_nat (if level = ESP_LOG_ERROR then 0 else if level = ESP_LOG_WARN then 1
                           else if level = ESP_LOG_DEBUG then 3
                           else if level = ESP_LOG_VERBOSE then 4 else 2) @ '' ''
               @ TAG @ '' ('' @ func @ '':'' @ show_int line @ '') '' @ vformat e fmt args)
     \<and> queue st' =
         (if length (queue st) < MESSAGE_QUEUE_SIZE e then queue st @ [brk st] else queue st)"
  by (cases level)
    (simp_all add: generate_fits [OF assms] send_to_queue_heap send_to_queue_queue header_def
      log_level_opt_def)

text \<open>
  The theorem for \<^verbatim>\<open>main\<close>, line 42, with the tag \<^verbatim>\<open>app\<close>, the format \<^verbatim>\<open>"boot %d"\<close> and
  the argument 3 at time 1000, as an error, as a warning and as a verbose message.
\<close>

theorem generate_log_message_record_witness:
  "length (header ''app'' ''main'' 42) + length (vformat env0 ''boot %d'' [ArgInt 3])
     < BUFFER_SIZE env0
   \<and> (\<exists>st'. generate_log_message env0 ESP_LOG_ERROR ''app'' 42 ''main'' ''boot %d'' [ArgInt 3]
              1000 st0 = Inr ((), st')
     \<and> heap st' 1 = Some ''1000 0 app (main:42) boot 3'' \<and> queue st' = [1])
   \<and> (\<exists>st'. generate_log_message env0 ESP_LOG_WARN ''app'' 42 ''main'' ''boot %d'' [ArgInt 3]
              1000 st0 = Inr ((), st')
     \<and> heap st' 1 = Some ''1000 1 app (main:42) boot 3'' \<and> queue st' = [1])
   \<and> (\<exists>st'. generate_log_message env0 ESP_LOG_VERBOSE ''app'' 42 ''main'' ''boot %d'' [ArgInt 3]
              1000 st0 = Inr ((), st')
     \<and> heap st' 1 = Some ''1000 4 app (main:42) boot 3'' \<and> queue st' = [1])"
  using generate_log_message_record
      [of "''app''" "''main''" 42 env0 "''boot %d''" "[ArgInt 3]" ESP_LOG_ERROR 1000 st0]
    generate_log_message_record
      [of "''app''" "''main''" 42 env0 "''boot %d''" "[ArgInt 3]" ESP_LOG_WARN 1000 st0]
    generate_log_message_record
      [of "''app''" "''main''" 42 env0 "''boot %d''" "[ArgInt 3]" ESP_LOG_VERBOSE 1000 st0]
  by (simp add: env0_def st0_def header_def render_arg_def show_int_def show_nat.simps
      digit_char_def)

subsection \<open>C9: the hook writes to the console\<close>

text \<open>
  When the expanded text fits the buffer that the hook allocates, the hook does what
  C9 says, in every state and so whether \<^verbatim>\<open>send_to_queue\<close> accepted or rejected the
  record: it returns the number of characters of the text, and the text is the last
  thing written, appended to what the console has received.
\<close>

lemma route_console_fits:
  assumes "length (vformat e fmt tag) < BUFFER_SIZE e"
  shows "\<exists>st'. system_log_message_route e fmt tag st = Inr (int (length (vformat e fmt tag)), st')
     \<and> console (trace st') = console (trace st) @ [vformat e fmt tag]
     \<and> last (trace st') = EvConsole (vformat e fmt tag)"
  by (simp add: route_fits [OF assms] emit_def send_to_queue_trace console_append)

text \<open>
  Claim C9 at a failing input: with a buffer of 512 bytes the hook is called with the
  format \<^verbatim>\<open>"%s"\<close> and a string of 600 characters. \<^verbatim>\<open>vsprintf\<close> writes the 600 characters
  and the zero byte past the end of the 512 bytes from \<^verbatim>\<open>malloc\<close>; the call ends there,
  before \<^verbatim>\<open>send_to_queue\<close> and \<^verbatim>\<open>vprintf\<close>: nothing is returned and nothing has reached
  the console.
\<close>

theorem route_oversized_text_overflows:
  "BUFFER_SIZE env0 = 512
   \<and> length (vformat env0 ''%s'' [ArgStr (replicate 600 (CHR ''A''))]) = 600
   \<and> system_log_message_route env0 ''%s'' [ArgStr (replicate 600 (CHR ''A''))] st0
       = Inl (BufferOverflow, st0\<lparr>brk := 2, heap := [1 \<mapsto> []]\<rparr>)
   \<and> console (trace (final (system_log_message_route env0 ''%s''
        [ArgStr (replicate 600 (CHR ''A''))] st0))) = []"
  by (simp add: system_log_message_route_def malloc_def env0_def st0_def render_arg_def
      final_def)

subsection \<open>C10: what a returning receive returns\<close>

text \<open>
  Claim C10: with \<^verbatim>\<open>configASSERT\<close> compiled in, a call of \<^verbatim>\<open>receive_from_queue\<close> that
  returns has taken the first pointer from the queue and returns it, through the branch
  of \<^verbatim>\<open>pdPASS\<close>: nothing was freed and the only effect besides the dequeue is the debug
  line. On a queue of records the pointer is not \<open>NULL\<close>, and the pass of the dispatch
  loop goes through the branch that sends the record's text and frees the record, not
  through the branch that sends the error text.
\<close>

theorem receive_returns_dequeued:
  assumes "assert_active e" and "receive_from_queue e data0 st = Inr (d, st1)"
  shows "queue st = d # queue st1
     \<and> st1 = ESP_LOG ESP_LOG_DEBUG ''Data received from Queue'' (st\<lparr>queue := tl (queue st)\<rparr>)
     \<and> frees (trace st1) = frees (trace st)
     \<and> (queue_ok st \<longrightarrow> d \<noteq> NULL \<and>
          (\<forall>r. \<exists>c st2. heap st d = Some c
              \<and> wifi_logger_iteration e (data0, r) st = Inr ((), st2)
              \<and> trace st2 = trace st @
                  [EvLog ESP_LOG_DEBUG ''Data received from Queue'', EvSend c,
                   EvLog ESP_LOG_DEBUG (show_int r @ '' bytes of data sent''), EvFree d]))"
proof (cases "queue st")
  case Nil
  with assms show ?thesis
    by (simp add: receive_from_queue_def xQueueReceive_def)
next
  case (Cons p q)
  from assms(2) have d: "d = p"
    and st1: "st1 = ESP_LOG ESP_LOG_DEBUG ''Data received from Queue'' (st\<lparr>queue := q\<rparr>)"
    by (simp_all add: receive_from_queue_record [OF Cons])
  have a: "queue st = d # queue st1"
    by (simp add: Cons d st1 ESP_LOG_def emit_def)
  have b: "frees (trace st1) = frees (trace st)"
    by (simp add: st1 ESP_LOG_def emit_def frees_append)
  have c: "d \<noteq> NULL \<and>
          (\<forall>r. \<exists>c st2. heap st d = Some c
              \<and> wifi_logger_iteration e (data0, r) st = Inr ((), st2)
              \<and> trace st2 = trace st @
                  [EvLog ESP_LOG_DEBUG ''Data received from Queue'', EvSend c,
                   EvLog ESP_LOG_DEBUG (show_int r @ '' bytes of data sent''), EvFree d])"
    if ok: "queue_ok st"
  proof -
    from ok Cons have p: "p \<noteq> NULL" "heap st p \<noteq> None"
      by (auto simp: queue_ok_def)
    then obtain c where c: "heap st p = Some c" by auto
    show ?thesis
      using iteration_record [OF Cons p(1) c, of e] p(1) c by (simp add: d)
  qed
  from a b c show ?thesis by (simp add: st1 Cons)
qed

text \<open>The theorem on the full queue, with an arbitrary value in \<^verbatim>\<open>data\<close>.\<close>

theorem receive_returns_dequeued_witness:
  "assert_active env0
   \<and> receive_from_queue env0 7 st_full =
       Inr (1, ESP_LOG ESP_LOG_DEBUG ''Data received from Queue'' (st_full\<lparr>queue := [2, 3, 4, 5]\<rparr>))
   \<and> queue_ok st_full
   \<and> (\<exists>st2. wifi_logger_iteration env0 (7, 1) st_full = Inr ((), st2)
        \<and> trace st2 = [EvLog ESP_LOG_DEBUG ''Data received from Queue'', EvSend ''A'',
                       EvLog ESP_LOG_DEBUG ''1 bytes of data sent'', EvFree 1])"
proof -
  have a: "assert_active env0"
    by (simp add: env0_def)
  have r: "receive_from_queue env0 7 st_full =
       Inr (1, ESP_LOG ESP_LOG_DEBUG ''Data received from Queue'' (st_full\<lparr>queue := [2, 3, 4, 5]\<rparr>))"
    by (simp add: receive_from_queue_def xQueueReceive_def env0_def st_full_def)
  from receive_returns_dequeued [OF a r] queue_ok_st_full
  have "\<forall>r. \<exists>c st2. heap st_full 1 = Some c
          \<and> wifi_logger_iteration env0 (7, r) st_full = Inr ((), st2)
          \<and> trace st2 = trace st_full @
                  [EvLog ESP_LOG_DEBUG ''Data received from Queue'', EvSend c,
                   EvLog ESP_LOG_DEBUG (show_int r @ '' bytes of data sent''), EvFree 1]"
    by simp
  then have "\<exists>c st2. heap st_full 1 = Some c
          \<and> wifi_logger_iteration env0 (7, 1) st_full = Inr ((), st2)
          \<and> trace st2 = trace st_full @
                  [EvLog ESP_LOG_DEBUG ''Data received from Queue'', EvSend c,
                   EvLog ESP_LOG_DEBUG (show_int 1 @ '' bytes of data sent''), EvFree 1]"
    by (rule spec)
  then have "\<exists>st2. wifi_logger_iteration env0 (7, 1) st_full = Inr ((), st2)
        \<and> trace st2 = [EvLog ESP_LOG_DEBUG ''Data received from Queue'', EvSend ''A'',
                       EvLog ESP_LOG_DEBUG ''1 bytes of data sent'', EvFree 1]"
    by (auto simp: st_full_def show_int_def show_nat.simps digit_char_def)
  with a r queue_ok_st_full show ?thesis
    by simp
qed

end
